theory Spec2Isabelle
  imports Main "HOL-Library.Option_ord" "HOL-Library.Multiset"
begin

section \<open>Data model\<close>

text \<open>
  The handlers of \<^verbatim>\<open>backend/app/api/admin_routes/data_source.py\<close> work on three ORM
  classes.  Only the attributes the handlers touch are modelled.  The enumerations
  (\<^verbatim>\<open>DataSourceType\<close>, the two index statuses), the type of \<^verbatim>\<open>config\<close> and the
  type of the user's id are type parameters: the handlers copy or compare such values
  and never look inside them.  The index statuses are linearly ordered because the
  overview queries sort by them.
\<close>

text \<open>
  Modelled from the spec: class \<^verbatim>\<open>DataSource\<close> of \<^verbatim>\<open>app.models\<close>, which is not among
  the sources.  The data model has an identity, \<^verbatim>\<open>name\<close>, \<^verbatim>\<open>description\<close>,
  \<^verbatim>\<open>data_source_type\<close>, \<^verbatim>\<open>config\<close>, \<^verbatim>\<open>build_kg_index\<close>, \<^verbatim>\<open>user_id\<close> and
  \<^verbatim>\<open>created_at\<close>; identity and \<^verbatim>\<open>created_at\<close> are generated when the row is
  stored.  An object that the handler has built and not yet stored has neither, hence
  the two optional attributes.
\<close>

record ('t, 'c, 'u) DataSource =
  DataSource_id :: "int option"
  DataSource_name :: string
  DataSource_description :: string
  DataSource_data_source_type :: 't
  DataSource_config :: 'c
  DataSource_build_kg_index :: bool
  DataSource_user_id :: 'u
  DataSource_created_at :: "int option"

text \<open>
  Modelled from the spec: class \<^verbatim>\<open>Document\<close> of \<^verbatim>\<open>app.models\<close>, which is not among
  the sources.  A Document belongs to one DataSource through \<^verbatim>\<open>data_source_id\<close> and
  has an \<^verbatim>\<open>index_status\<close>.
\<close>

record 'ds Document =
  Document_id :: int
  Document_data_source_id :: int
  Document_index_status :: 'ds

text \<open>
  Modelled from the spec: class \<^verbatim>\<open>Chunk\<close> of \<^verbatim>\<open>app.models\<close>, which is not among the
  sources.  A Chunk belongs to one Document through a relation, not a direct reference
  to the data source, and has its own \<^verbatim>\<open>index_status\<close>.  \<open>Chunk_document_id\<close> is
  the foreign key behind the relationship \<^verbatim>\<open>Chunk.document\<close>.
\<close>

record 'cs Chunk =
  Chunk_id :: int
  Chunk_document_id :: int
  Chunk_index_status :: 'cs

text \<open>The request body of the create endpoint (class \<^verbatim>\<open>DataSourceCreate\<close>).\<close>

record ('t, 'c) DataSourceCreate =
  DataSourceCreate_name :: string
  DataSourceCreate_description :: string
  DataSourceCreate_data_source_type :: 't
  DataSourceCreate_config :: 'c
  DataSourceCreate_build_kg_index :: bool

text \<open>
  Modelled from the spec: the current user that \<^verbatim>\<open>CurrentSuperuserDep\<close> of
  \<^verbatim>\<open>app.api.deps\<close> (not among the sources) resolves before the handler runs.  The
  handlers read \<^verbatim>\<open>user.id\<close> only.
\<close>

record 'u User =
  User_id :: 'u

section \<open>The collaborators: storage session and task dispatcher\<close>

text \<open>
  What a handler can observe or change: the three tables of the database, the objects
  the session tracks (\<open>instances\<close>; one without a primary key is pending), the
  database's auto-increment counter and clock, and the task queue with the availability
  of its broker.  The session is threaded through every handler, as in the source, and
  returned.  Commits and dispatches that happened are appended to \<open>history\<close>, so that
  their order can be stated; a \<open>Committed\<close> event lists the primary keys of the rows
  the commit inserted, a \<open>Dispatched\<close> event carries the job's argument.

  A table is a bag of rows.  The order of its list is the order in which the database
  happens to deliver the rows to the query at hand; it is not part of what is stored,
  and another query may get the same rows in another order.  Two worlds store the same
  rows when their tables are equal as multisets.
\<close>

datatype event = Committed "int list" | Dispatched "int option"

record ('t, 'c, 'u, 'ds, 'cs) world =
  DataSource_table :: "('t, 'c, 'u) DataSource list"
  Document_table :: "'ds Document list"
  Chunk_table :: "'cs Chunk list"
  instances :: "('t, 'c, 'u) DataSource list"
  next_id :: int
  db_now :: int
  broker_up :: bool
  task_queue :: "int option list"
  history :: "event list"

datatype error =
  HTTPException int string
  | InvalidRequestError
  | DispatchFailure

definition HTTP_404_NOT_FOUND :: int where
  "HTTP_404_NOT_FOUND = 404"

text \<open>\<^verbatim>\<open>session.get(DataSource, data_source_id)\<close>: point lookup by primary key.\<close>

definition session_get ::
  "('t, 'c, 'u, 'ds, 'cs) world \<Rightarrow> int \<Rightarrow> ('t, 'c, 'u) DataSource option" where
  "session_get session data_source_id =
     find (\<lambda>r. DataSource_id r = Some data_source_id) (DataSource_table session)"

section \<open>The overview queries\<close>

text \<open>\<^verbatim>\<open>.where(Document.data_source_id == data_source_id)\<close>\<close>

definition where_data_source :: "int \<Rightarrow> 'ds Document list \<Rightarrow> 'ds Document list" where
  "where_data_source data_source_id rows =
     filter (\<lambda>d. Document_data_source_id d = data_source_id) rows"

text \<open>
  \<^verbatim>\<open>Chunk.document.has(Document.data_source_id == data_source_id)\<close>: there is a
  Document row that the chunk refers to and that belongs to the data source.
\<close>

definition document_has :: "'ds Document list \<Rightarrow> int \<Rightarrow> 'cs Chunk \<Rightarrow> bool" where
  "document_has docs data_source_id c =
     (\<exists>d \<in> set docs. Document_id d = Chunk_document_id c
                      \<and> Document_data_source_id d = data_source_id)"

definition where_document_has ::
  "'ds Document list \<Rightarrow> int \<Rightarrow> 'cs Chunk list \<Rightarrow> 'cs Chunk list" where
  "where_document_has docs data_source_id rows =
     filter (document_has docs data_source_id) rows"

text \<open>\<^verbatim>\<open>select(func.count(X.id))\<close> over the selected rows.\<close>

definition func_count :: "'r list \<Rightarrow> int" where
  "func_count rows = int (length rows)"

text \<open>
  \<^verbatim>\<open>select(X.index_status, func.count(X.id)).group_by(X.index_status)
  .order_by(X.index_status)\<close>: one result row per status that occurs, in ascending
  order of the status, with the number of selected rows in that group.
\<close>

definition group_by_count :: "('r \<Rightarrow> 'k::linorder) \<Rightarrow> 'r list \<Rightarrow> ('k \<times> int) list" where
  "group_by_count key rows =
     map (\<lambda>k. (k, func_count (filter (\<lambda>r. key r = k) rows))) (sort (remdups (map key rows)))"

text \<open>The dict comprehension \<^verbatim>\<open>{s: c for s, c in results}\<close>: a later pair overwrites.\<close>

definition dict_of :: "('k \<times> 'v) list \<Rightarrow> ('k \<rightharpoonup> 'v)" where
  "dict_of results = foldl (\<lambda>m (s, c). m(s \<mapsto> c)) Map.empty results"

record counts =
  total' :: int

record ('ds, 'cs) overview =
  documents :: counts
  chunks :: counts
  kg_index :: "'cs \<rightharpoonup> int"
  vector_index :: "'ds \<rightharpoonup> int"

definition get_datasource_overview ::
  "('t, 'c, 'u, 'ds::linorder, 'cs::linorder) world \<Rightarrow> 'u User \<Rightarrow> int
     \<Rightarrow> (error + ('ds, 'cs) overview) \<times> ('t, 'c, 'u, 'ds, 'cs) world" where
  "get_datasource_overview session user data_source_id =
     (case session_get session data_source_id of
        None \<Rightarrow> (Inl (HTTPException HTTP_404_NOT_FOUND ''Data source not found''), session)
      | Some data_source \<Rightarrow>
          let documents_count =
                func_count (where_data_source data_source_id (Document_table session));
              chunks_count =
                func_count (where_document_has (Document_table session) data_source_id
                              (Chunk_table session));
              results =
                group_by_count Document_index_status
                  (where_data_source data_source_id (Document_table session));
              vector_index_status = dict_of results;
              kg_index_status =
                (if DataSource_build_kg_index data_source
                 then dict_of
                        (group_by_count Chunk_index_status
                           (where_document_has (Document_table session) data_source_id
                              (Chunk_table session)))
                 else Map.empty)
          in (Inr \<lparr>documents = \<lparr>total' = documents_count\<rparr>,
                   chunks = \<lparr>total' = chunks_count\<rparr>,
                   kg_index = kg_index_status,
                   vector_index = vector_index_status\<rparr>,
              session))"

section \<open>Get\<close>

definition get_datasource ::
  "('t, 'c, 'u, 'ds, 'cs) world \<Rightarrow> 'u User \<Rightarrow> int
     \<Rightarrow> (error + ('t, 'c, 'u) DataSource) \<times> ('t, 'c, 'u, 'ds, 'cs) world" where
  "get_datasource session user data_source_id =
     (case session_get session data_source_id of
        None \<Rightarrow> (Inl (HTTPException HTTP_404_NOT_FOUND ''Data source not found''), session)
      | Some data_source \<Rightarrow> (Inr data_source, session))"

section \<open>List\<close>

text \<open>
  \<^verbatim>\<open>.order_by(DataSource.created_at.desc())\<close>: the rows by descending key.  The query
  names no second key, so among rows of equal \<^verbatim>\<open>created_at\<close> the database keeps
  whatever order it delivers them in: the sort is stable with respect to the order of
  the table's list, which may differ from one query to the next.
\<close>

definition order_by_desc :: "('r \<Rightarrow> 'k::linorder) \<Rightarrow> 'r list \<Rightarrow> 'r list" where
  "order_by_desc key rows = rev (sort_key key (rev rows))"

text \<open>
  The pagination helper of \<^verbatim>\<open>fastapi_pagination\<close>: \<^verbatim>\<open>Params\<close> holds a page number
  (from 1) and a page size; \<^verbatim>\<open>paginate\<close> counts the rows of the ordered query and
  fetches \<^verbatim>\<open>LIMIT size OFFSET size * (page - 1)\<close>; the page reports the items, the
  total, the parameters and the number of pages \<^verbatim>\<open>ceil(total / size)\<close>.
\<close>

record Params =
  Params_page :: int
  Params_size :: int

record 'r Page =
  Page_items :: "'r list"
  Page_total :: int
  Page_page :: int
  Page_size :: int
  Page_pages :: int

definition paginate :: "'r list \<Rightarrow> Params \<Rightarrow> 'r Page" where
  "paginate query params =
     (let total = func_count query;
          items = take (nat (Params_size params))
                    (drop (nat (Params_size params * (Params_page params - 1))) query)
      in \<lparr>Page_items = items,
          Page_total = total,
          Page_page = Params_page params,
          Page_size = Params_size params,
          Page_pages = (if Params_size params = 0 then 0
                        else - ((- total) div Params_size params))\<rparr>)"

definition list_datasources ::
  "('t, 'c, 'u, 'ds, 'cs) world \<Rightarrow> 'u User \<Rightarrow> Params
     \<Rightarrow> ('t, 'c, 'u) DataSource Page \<times> ('t, 'c, 'u, 'ds, 'cs) world" where
  "list_datasources session user params =
     (paginate (order_by_desc DataSource_created_at (DataSource_table session)) params,
      session)"

text \<open>
  The items of the pages \<open>1, \<dots>, pages\<close> for a page size, one page after the other.
  Every page is the answer to a request of its own: \<open>sessions p\<close> is the world in which
  page \<open>p\<close> is fetched.
\<close>

definition all_pages_items ::
  "(int \<Rightarrow> ('t, 'c, 'u, 'ds, 'cs) world) \<Rightarrow> 'u User \<Rightarrow> int
     \<Rightarrow> ('t, 'c, 'u) DataSource list" where
  "all_pages_items sessions user page_size =
     concat (map (\<lambda>p. Page_items (fst (list_datasources (sessions p) user
                                          \<lparr>Params_page = p, Params_size = page_size\<rparr>)))
               [1..Page_pages (fst (list_datasources (sessions 1) user
                                      \<lparr>Params_page = 1, Params_size = page_size\<rparr>))])"

section \<open>Create\<close>

text \<open>
  \<^verbatim>\<open>session.add(obj)\<close>: the session tracks the object.  The model returns the object's
  position among the session's instances; it stands for the Python reference that the
  handler keeps in \<^verbatim>\<open>data_source\<close> while the session changes the object.
\<close>

definition session_add ::
  "('t, 'c, 'u, 'ds, 'cs) world \<Rightarrow> ('t, 'c, 'u) DataSource
     \<Rightarrow> nat \<times> ('t, 'c, 'u, 'ds, 'cs) world" where
  "session_add session obj =
     (length (instances session), session\<lparr>instances := instances session @ [obj]\<rparr>)"

text \<open>
  Modelled from the spec: the column defaults of \<^verbatim>\<open>DataSource\<close> are declared in
  \<^verbatim>\<open>app.models\<close>, which is not among the sources; the spec has \<^verbatim>\<open>id\<close> and
  \<^verbatim>\<open>created_at\<close> generated.  These are the INSERTs of a flush: every pending
  instance gets the next auto-increment value as primary key and, where it has none,
  the database's time as \<^verbatim>\<open>created_at\<close>.
\<close>

fun flush ::
  "int \<Rightarrow> int \<Rightarrow> ('t, 'c, 'u) DataSource list \<Rightarrow> ('t, 'c, 'u) DataSource list" where
  "flush n now [] = []"
| "flush n now (x # xs) =
     (case DataSource_id x of
        None \<Rightarrow>
          x\<lparr>DataSource_id := Some n,
            DataSource_created_at :=
              (case DataSource_created_at x of None \<Rightarrow> Some now | Some t \<Rightarrow> Some t)\<rparr>
            # flush (n + 1) now xs
      | Some k \<Rightarrow> x # flush n now xs)"

text \<open>The instances a flush inserts: those that were pending, as they are afterwards.\<close>

definition inserted ::
  "('t, 'c, 'u) DataSource list \<Rightarrow> ('t, 'c, 'u) DataSource list
     \<Rightarrow> ('t, 'c, 'u) DataSource list" where
  "inserted olds news =
     map snd (filter (\<lambda>(old, new). DataSource_id old = None) (zip olds news))"

text \<open>
  \<^verbatim>\<open>session.commit()\<close>: flush the pending instances and make the rows durable.  The
  storage layer is taken to be available.
\<close>

definition session_commit ::
  "('t, 'c, 'u, 'ds, 'cs) world \<Rightarrow> ('t, 'c, 'u, 'ds, 'cs) world" where
  "session_commit session =
     (let flushed = flush (next_id session) (db_now session) (instances session);
          rows = inserted (instances session) flushed
      in session\<lparr>DataSource_table := DataSource_table session @ rows,
                 instances := flushed,
                 next_id := next_id session + int (length rows),
                 history := history session
                              @ [Committed (List.map_filter DataSource_id rows)]\<rparr>)"

text \<open>
  \<^verbatim>\<open>session.refresh(obj)\<close>: reload the object from its row, found by primary key.  It
  raises when the object is not persistent or its row is gone.  The model returns the
  reloaded object, which the handler's variable denotes from then on.
\<close>

definition session_refresh ::
  "('t, 'c, 'u, 'ds, 'cs) world \<Rightarrow> nat
     \<Rightarrow> error + (('t, 'c, 'u) DataSource \<times> ('t, 'c, 'u, 'ds, 'cs) world)" where
  "session_refresh session ref =
     (if ref < length (instances session)
      then (case DataSource_id (instances session ! ref) of
              None \<Rightarrow> Inl InvalidRequestError
            | Some k \<Rightarrow>
                (case session_get session k of
                   None \<Rightarrow> Inl InvalidRequestError
                 | Some row \<Rightarrow>
                     Inr (row, session\<lparr>instances := (instances session)[ref := row]\<rparr>)))
      else Inl InvalidRequestError)"

text \<open>
  Modelled from the spec: the task \<^verbatim>\<open>import_documents_from_datasource\<close> of
  \<^verbatim>\<open>app.tasks\<close> is not among the sources.  \<^verbatim>\<open>delay(arg)\<close> submits the job to the
  task dispatcher and returns at once; the job itself runs elsewhere.  When the dispatch
  fails the call raises, and nothing is enqueued.
\<close>

definition import_documents_from_datasource_delay ::
  "('t, 'c, 'u, 'ds, 'cs) world \<Rightarrow> int option \<Rightarrow> error + ('t, 'c, 'u, 'ds, 'cs) world" where
  "import_documents_from_datasource_delay session arg =
     (if broker_up session
      then Inr (session\<lparr>task_queue := task_queue session @ [arg],
                        history := history session @ [Dispatched arg]\<rparr>)
      else Inl DispatchFailure)"

definition create_datasource ::
  "('t, 'c, 'u, 'ds, 'cs) world \<Rightarrow> 'u User \<Rightarrow> ('t, 'c) DataSourceCreate
     \<Rightarrow> (error + ('t, 'c, 'u) DataSource) \<times> ('t, 'c, 'u, 'ds, 'cs) world" where
  "create_datasource session user request =
     (let data_source =
            \<lparr>DataSource_id = None,
             DataSource_name = DataSourceCreate_name request,
             DataSource_description = DataSourceCreate_description request,
             DataSource_data_source_type = DataSourceCreate_data_source_type request,
             DataSource_config = DataSourceCreate_config request,
             DataSource_build_kg_index = DataSourceCreate_build_kg_index request,
             DataSource_user_id = User_id user,
             DataSource_created_at = None\<rparr>;
          (ref, added) = session_add session data_source;
          committed = session_commit added
      in case session_refresh committed ref of
           Inl e \<Rightarrow> (Inl e, committed)
         | Inr (data_source, refreshed) \<Rightarrow>
             (case import_documents_from_datasource_delay refreshed
                     (DataSource_id data_source) of
                Inl e \<Rightarrow> (Inl e, refreshed)
              | Inr dispatched \<Rightarrow> (Inr data_source, dispatched)))"

text \<open>The job arguments that a list of events handed to the broker, in order.\<close>

fun jobs_of :: "event list \<Rightarrow> int option list" where
  "jobs_of [] = []"
| "jobs_of (Committed ks # es) = jobs_of es"
| "jobs_of (Dispatched arg # es) = arg # jobs_of es"

text \<open>
  Within a list of events, every dispatch comes after a commit that inserted the row the
  job is about (\<open>seen\<close>: the primary keys committed so far).
\<close>

fun commit_precedes_dispatch :: "int list \<Rightarrow> event list \<Rightarrow> bool" where
  "commit_precedes_dispatch seen [] = True"
| "commit_precedes_dispatch seen (Committed ks # es) = commit_precedes_dispatch (seen @ ks) es"
| "commit_precedes_dispatch seen (Dispatched arg # es) =
     ((\<exists>k \<in> set seen. arg = Some k) \<and> commit_precedes_dispatch seen es)"

section \<open>A small database\<close>

text \<open>
  Data source 1 builds a knowledge-graph index and has three documents, two of status 3
  and one of status 4, with three chunks; data source 2 does not and has one document
  with one chunk; data source 3 has no document.  Chunk 105 refers to no document.
\<close>

definition example_ds1 :: "(string, string list, nat) DataSource" where
  "example_ds1 =
     \<lparr>DataSource_id = Some 1, DataSource_name = ''docs'',
      DataSource_description = ''manual'', DataSource_data_source_type = ''file'',
      DataSource_config = [''a.pdf''], DataSource_build_kg_index = True,
      DataSource_user_id = 7, DataSource_created_at = Some 1000\<rparr>"

definition example_ds2 :: "(string, string list, nat) DataSource" where
  "example_ds2 =
     \<lparr>DataSource_id = Some 2, DataSource_name = ''blog'',
      DataSource_description = ''posts'', DataSource_data_source_type = ''web'',
      DataSource_config = [], DataSource_build_kg_index = False,
      DataSource_user_id = 7, DataSource_created_at = Some 2000\<rparr>"

definition example_ds3 :: "(string, string list, nat) DataSource" where
  "example_ds3 =
     \<lparr>DataSource_id = Some 3, DataSource_name = ''empty'',
      DataSource_description = ''none'', DataSource_data_source_type = ''file'',
      DataSource_config = [], DataSource_build_kg_index = True,
      DataSource_user_id = 8, DataSource_created_at = Some 2000\<rparr>"

text \<open>The row that creating \<open>example_request\<close> below as \<open>example_user\<close> inserts.\<close>

definition example_ds4 :: "(string, string list, nat) DataSource" where
  "example_ds4 =
     \<lparr>DataSource_id = Some 4, DataSource_name = ''wiki'',
      DataSource_description = ''pages'', DataSource_data_source_type = ''web'',
      DataSource_config = [''https://example.org''], DataSource_build_kg_index = True,
      DataSource_user_id = 7, DataSource_created_at = Some 3000\<rparr>"

definition example_world :: "(string, string list, nat, nat, nat) world" where
  "example_world =
     \<lparr>DataSource_table = [example_ds1, example_ds2, example_ds3],
      Document_table =
        [\<lparr>Document_id = 10, Document_data_source_id = 1, Document_index_status = 3\<rparr>,
         \<lparr>Document_id = 11, Document_data_source_id = 1, Document_index_status = 3\<rparr>,
         \<lparr>Document_id = 12, Document_data_source_id = 1, Document_index_status = 4\<rparr>,
         \<lparr>Document_id = 13, Document_data_source_id = 2, Document_index_status = 3\<rparr>],
      Chunk_table =
        [\<lparr>Chunk_id = 101, Chunk_document_id = 10, Chunk_index_status = 1\<rparr>,
         \<lparr>Chunk_id = 102, Chunk_document_id = 10, Chunk_index_status = 3\<rparr>,
         \<lparr>Chunk_id = 103, Chunk_document_id = 12, Chunk_index_status = 3\<rparr>,
         \<lparr>Chunk_id = 104, Chunk_document_id = 13, Chunk_index_status = 3\<rparr>,
         \<lparr>Chunk_id = 105, Chunk_document_id = 99, Chunk_index_status = 4\<rparr>],
      instances = [],
      next_id = 4,
      db_now = 3000,
      broker_up = True,
      task_queue = [Some 1, Some 2, Some 3],
      history = []\<rparr>"

text \<open>
  The same rows as \<open>example_world\<close>, delivered in another order; and the worlds in which
  three requests fetch the pages of size 1, the second one seeing that other order.
\<close>

definition example_world_redelivered :: "(string, string list, nat, nat, nat) world" where
  "example_world_redelivered =
     example_world\<lparr>DataSource_table := [example_ds1, example_ds3, example_ds2]\<rparr>"

definition example_sessions :: "int \<Rightarrow> (string, string list, nat, nat, nat) world" where
  "example_sessions p = (if p = 2 then example_world_redelivered else example_world)"

text \<open>Two rows with different \<^verbatim>\<open>created_at\<close>, and the same two delivered the other way.\<close>

definition example_two :: "(string, string list, nat, nat, nat) world" where
  "example_two = example_world\<lparr>DataSource_table := [example_ds1, example_ds2]\<rparr>"

definition example_two_sessions :: "int \<Rightarrow> (string, string list, nat, nat, nat) world" where
  "example_two_sessions p =
     (if p = 2 then example_two\<lparr>DataSource_table := [example_ds2, example_ds1]\<rparr>
      else example_two)"

definition example_user :: "nat User" where
  "example_user = \<lparr>User_id = 7\<rparr>"

definition example_request :: "(string, string list) DataSourceCreate" where
  "example_request =
     \<lparr>DataSourceCreate_name = ''wiki'',
      DataSourceCreate_description = ''pages'',
      DataSourceCreate_data_source_type = ''web'',
      DataSourceCreate_config = [''https://example.org''],
      DataSourceCreate_build_kg_index = True\<rparr>"

section \<open>Grouped counts as a dictionary\<close>

lemma dict_of_foldl:
  "foldl (\<lambda>m (s, c). m(s \<mapsto> c)) m0 results = m0 ++ map_of (rev results)"
  by (induction results arbitrary: m0)
     (auto simp: map_add_upd_left fun_eq_iff map_add_def split: option.splits)

lemma dict_of_group_by_count:
  "dict_of (group_by_count key rows) k =
     (if k \<in> key ` set rows then Some (func_count (filter (\<lambda>r. key r = k) rows)) else None)"
proof -
  let ?ks = "sort (remdups (map key rows))"
  let ?f = "\<lambda>k. func_count (filter (\<lambda>r. key r = k) rows)"
  have "dict_of (group_by_count key rows) = map_of (rev (map (\<lambda>k. (k, ?f k)) ?ks))"
    by (simp add: dict_of_def group_by_count_def dict_of_foldl)
  also have "\<dots> = map_of (map (\<lambda>k. (k, ?f k)) (rev ?ks))"
    by (simp add: rev_map)
  also have "\<dots> = (Some \<circ> ?f) |` set (rev ?ks)"
    by (rule map_of_map_restrict)
  finally show ?thesis
    by (simp add: restrict_map_def)
qed

lemma dict_of_group_by_count_length:
  "dict_of (group_by_count key rows) k =
     (let n = length (filter (\<lambda>r. key r = k) rows) in if n = 0 then None else Some (int n))"
  by (auto simp: dict_of_group_by_count func_count_def Let_def filter_empty_conv)

lemma sum_length_filter_key:
  "finite S \<Longrightarrow> key ` set rows \<subseteq> S \<Longrightarrow>
     (\<Sum>s \<in> S. int (length (filter (\<lambda>r. key r = s) rows))) = int (length rows)"
proof (induction rows)
  case Nil
  then show ?case by simp
next
  case (Cons r rows)
  have "(\<Sum>s \<in> S. int (length (filter (\<lambda>r. key r = s) (r # rows))))
      = (\<Sum>s \<in> S. (if s = key r then 1 else 0) + int (length (filter (\<lambda>r. key r = s) rows)))"
    by (rule sum.cong) auto
  also have "\<dots> = (\<Sum>s \<in> S. if s = key r then 1 else 0)
                   + (\<Sum>s \<in> S. int (length (filter (\<lambda>r. key r = s) rows)))"
    by (rule sum.distrib)
  also have "(\<Sum>s \<in> S. if s = key r then 1 else 0) = (1::int)"
    using Cons.prems by simp
  finally show ?case using Cons by simp
qed

lemma dom_dict_of_group_by_count:
  "dom (dict_of (group_by_count key rows)) = key ` set rows"
  by (auto simp: dom_def dict_of_group_by_count)

lemma sum_dict_of_group_by_count:
  "(\<Sum>s \<in> dom (dict_of (group_by_count key rows)).
      case dict_of (group_by_count key rows) s of None \<Rightarrow> 0 | Some c \<Rightarrow> c)
   = func_count rows"
proof -
  have "(\<Sum>s \<in> key ` set rows.
          case dict_of (group_by_count key rows) s of None \<Rightarrow> 0 | Some c \<Rightarrow> c)
      = (\<Sum>s \<in> key ` set rows. int (length (filter (\<lambda>r. key r = s) rows)))"
    by (rule sum.cong) (auto simp: dict_of_group_by_count func_count_def)
  then show ?thesis
    by (simp add: dom_dict_of_group_by_count sum_length_filter_key func_count_def)
qed

section \<open>Lookup by primary key\<close>

lemma session_get_None_iff:
  "session_get session k = None \<longleftrightarrow>
     (\<forall>r \<in> set (DataSource_table session). DataSource_id r \<noteq> Some k)"
  by (auto simp: session_get_def find_None_iff)

lemma session_get_SomeD:
  "session_get session k = Some r \<Longrightarrow>
     r \<in> set (DataSource_table session) \<and> DataSource_id r = Some k"
  by (auto simp: session_get_def find_Some_iff)

lemma session_get_exists:
  "\<exists>r \<in> set (DataSource_table session). DataSource_id r = Some k \<Longrightarrow>
     \<exists>r. session_get session k = Some r"
  using session_get_None_iff [of session k] by (cases "session_get session k") auto

lemma example_lookup:
  "session_get example_world 1 = Some example_ds1"
  "session_get example_world 2 = Some example_ds2"
  "session_get example_world 3 = Some example_ds3"
  "session_get example_world 1003 = None"
  by (simp_all add: session_get_def example_world_def example_ds1_def example_ds2_def
      example_ds3_def)

section \<open>The overview endpoint\<close>

text \<open>
  Claim C1.  For an existing data source id the overview succeeds;
  \<open>documents.total\<close> is the number of Document rows of the data source,
  \<open>chunks.total\<close> the number of Chunk rows whose Document belongs to it, and
  \<open>vector_index\<close> maps every index status that occurs among those Documents to the
  number of Documents that have it, and no other status.
\<close>

theorem overview_totals_and_vector_index:
  assumes "\<exists>r \<in> set (DataSource_table session). DataSource_id r = Some data_source_id"
  shows "\<exists>ov. get_datasource_overview session user data_source_id = (Inr ov, session)
     \<and> total' (documents ov) =
         int (length [d \<leftarrow> Document_table session. Document_data_source_id d = data_source_id])
     \<and> total' (chunks ov) =
         int (length [c \<leftarrow> Chunk_table session.
                \<exists>d \<in> set (Document_table session).
                   Document_id d = Chunk_document_id c
                   \<and> Document_data_source_id d = data_source_id])
     \<and> (\<forall>s. vector_index ov s =
           (let n = length [d \<leftarrow> Document_table session.
                              Document_data_source_id d = data_source_id
                              \<and> Document_index_status d = s]
            in if n = 0 then None else Some (int n)))"
proof -
  from session_get_exists [OF assms]
  obtain r where r: "session_get session data_source_id = Some r" ..
  show ?thesis
    by (simp add: get_datasource_overview_def r Let_def func_count_def where_data_source_def
        where_document_has_def document_has_def [abs_def] dict_of_group_by_count_length)
qed

theorem overview_totals_and_vector_index_witness:
  "(\<exists>r \<in> set (DataSource_table example_world). DataSource_id r = Some 1)
   \<and> (\<exists>ov. get_datasource_overview example_world example_user 1 = (Inr ov, example_world)
         \<and> total' (documents ov) = 3 \<and> total' (chunks ov) = 3
         \<and> vector_index ov 3 = Some 2 \<and> vector_index ov 4 = Some 1
         \<and> vector_index ov 0 = None)"
proof -
  have h: "\<exists>r \<in> set (DataSource_table example_world). DataSource_id r = Some 1"
    by (simp add: example_world_def example_ds1_def)
  from overview_totals_and_vector_index [OF h, of example_user]
  obtain ov where
    ov: "get_datasource_overview example_world example_user 1 = (Inr ov, example_world)"
    and d: "total' (documents ov) =
         int (length [d \<leftarrow> Document_table example_world. Document_data_source_id d = 1])"
    and c: "total' (chunks ov) =
         int (length [c \<leftarrow> Chunk_table example_world.
                \<exists>d \<in> set (Document_table example_world).
                   Document_id d = Chunk_document_id c
                   \<and> Document_data_source_id d = 1])"
    and v: "\<And>s. vector_index ov s =
           (let n = length [d \<leftarrow> Document_table example_world.
                              Document_data_source_id d = 1
                              \<and> Document_index_status d = s]
            in if n = 0 then None else Some (int n))"
    by blast
  have "total' (documents ov) = 3" using d by (simp add: example_world_def)
  moreover have "total' (chunks ov) = 3" using c by (simp add: example_world_def)
  moreover have "vector_index ov 3 = Some 2" "vector_index ov 4 = Some 1"
    "vector_index ov 0 = None"
    using v by (simp_all add: example_world_def)
  ultimately show ?thesis using h ov by blast
qed

text \<open>
  Claim C2.  For an existing data source the overview succeeds; when the data source's
  \<open>build_kg_index\<close> is false, \<open>kg_index\<close> is the empty mapping whatever the Chunk table
  holds; when it is true, \<open>kg_index\<close> maps every index status that occurs among the
  Chunks joined through Documents of the data source to the number of such Chunks.
\<close>

theorem overview_kg_index:
  assumes "session_get session data_source_id = Some data_source"
  shows "\<exists>ov. get_datasource_overview session user data_source_id = (Inr ov, session)
     \<and> (\<not> DataSource_build_kg_index data_source \<longrightarrow> kg_index ov = Map.empty)
     \<and> (DataSource_build_kg_index data_source \<longrightarrow>
          (\<forall>s. kg_index ov s =
             (let n = length [c \<leftarrow> Chunk_table session.
                                (\<exists>d \<in> set (Document_table session).
                                    Document_id d = Chunk_document_id c
                                    \<and> Document_data_source_id d = data_source_id)
                                \<and> Chunk_index_status c = s]
              in if n = 0 then None else Some (int n))))"
  using assms
  by (simp add: get_datasource_overview_def Let_def where_document_has_def
      document_has_def [abs_def] dict_of_group_by_count_length)

theorem overview_kg_index_witness:
  "session_get example_world 2 = Some example_ds2
   \<and> \<not> DataSource_build_kg_index example_ds2
   \<and> (\<exists>ov. get_datasource_overview example_world example_user 2 = (Inr ov, example_world)
          \<and> kg_index ov = Map.empty)
   \<and> session_get example_world 1 = Some example_ds1
   \<and> DataSource_build_kg_index example_ds1
   \<and> (\<exists>ov. get_datasource_overview example_world example_user 1 = (Inr ov, example_world)
          \<and> kg_index ov 1 = Some 1 \<and> kg_index ov 3 = Some 2 \<and> kg_index ov 4 = None)"
proof -
  have off: "\<not> DataSource_build_kg_index example_ds2" by (simp add: example_ds2_def)
  have on: "DataSource_build_kg_index example_ds1" by (simp add: example_ds1_def)
  from overview_kg_index [OF example_lookup(2), of example_user] off
  obtain ov2 where ov2:
    "get_datasource_overview example_world example_user 2 = (Inr ov2, example_world)"
    "kg_index ov2 = Map.empty"
    by blast
  from overview_kg_index [OF example_lookup(1), of example_user] on
  obtain ov1 where ov1:
    "get_datasource_overview example_world example_user 1 = (Inr ov1, example_world)"
    and kg: "\<And>s. kg_index ov1 s =
             (let n = length [c \<leftarrow> Chunk_table example_world.
                                (\<exists>d \<in> set (Document_table example_world).
                                    Document_id d = Chunk_document_id c
                                    \<and> Document_data_source_id d = 1)
                                \<and> Chunk_index_status c = s]
              in if n = 0 then None else Some (int n))"
    by blast
  have "kg_index ov1 1 = Some 1" "kg_index ov1 3 = Some 2" "kg_index ov1 4 = None"
    using kg by (simp_all add: example_world_def)
  with ov1 ov2 off on example_lookup(1,2) show ?thesis by blast
qed

text \<open>
  Claim C7.  For an existing data source without Documents the overview is exactly
  \<open>{documents: {total: 0}, chunks: {total: 0}, kg_index: {}, vector_index: {}}\<close>,
  whatever \<open>build_kg_index\<close> says.
\<close>

theorem overview_no_documents:
  assumes "\<exists>r \<in> set (DataSource_table session). DataSource_id r = Some data_source_id"
    and "\<forall>d \<in> set (Document_table session). Document_data_source_id d \<noteq> data_source_id"
  shows "get_datasource_overview session user data_source_id =
           (Inr \<lparr>documents = \<lparr>total' = 0\<rparr>, chunks = \<lparr>total' = 0\<rparr>,
                 kg_index = Map.empty, vector_index = Map.empty\<rparr>,
            session)"
proof -
  from session_get_exists [OF assms(1)]
  obtain r where r: "session_get session data_source_id = Some r" ..
  have docs: "where_data_source data_source_id (Document_table session) = []"
    using assms(2) by (simp add: where_data_source_def filter_empty_conv)
  have chunks:
    "where_document_has (Document_table session) data_source_id (Chunk_table session) = []"
    using assms(2) by (auto simp: where_document_has_def document_has_def filter_empty_conv)
  have empty: "\<And>key. dict_of (group_by_count key []) = Map.empty"
    by (simp add: dict_of_def group_by_count_def)
  show ?thesis
    by (simp add: get_datasource_overview_def r Let_def docs chunks empty func_count_def)
qed

theorem overview_no_documents_witness:
  "(\<exists>r \<in> set (DataSource_table example_world). DataSource_id r = Some 3)
   \<and> \<not> (\<exists>d \<in> set (Document_table example_world). Document_data_source_id d = 3)
   \<and> DataSource_build_kg_index example_ds3
   \<and> get_datasource_overview example_world example_user 3 =
        (Inr \<lparr>documents = \<lparr>total' = 0\<rparr>, chunks = \<lparr>total' = 0\<rparr>,
              kg_index = Map.empty, vector_index = Map.empty\<rparr>,
         example_world)"
proof -
  have h1: "\<exists>r \<in> set (DataSource_table example_world). DataSource_id r = Some 3"
    by (simp add: example_world_def example_ds3_def)
  have h2: "\<forall>d \<in> set (Document_table example_world). Document_data_source_id d \<noteq> 3"
    by (simp add: example_world_def)
  have "DataSource_build_kg_index example_ds3" by (simp add: example_ds3_def)
  with overview_no_documents [OF h1 h2, of example_user] h1 h2 show ?thesis by blast
qed

text \<open>
  Claim C9.  In every overview response the counts in \<open>vector_index\<close> add up to
  \<open>documents.total\<close>, and when the data source builds a knowledge-graph index the
  counts in \<open>kg_index\<close> add up to \<open>chunks.total\<close>.
\<close>

theorem overview_sums:
  assumes "fst (get_datasource_overview session user data_source_id) = Inr ov"
  shows "(\<Sum>s \<in> dom (vector_index ov). case vector_index ov s of None \<Rightarrow> 0 | Some c \<Rightarrow> c)
           = total' (documents ov)
     \<and> (\<forall>data_source. session_get session data_source_id = Some data_source
            \<longrightarrow> DataSource_build_kg_index data_source
            \<longrightarrow> (\<Sum>s \<in> dom (kg_index ov). case kg_index ov s of None \<Rightarrow> 0 | Some c \<Rightarrow> c)
                  = total' (chunks ov))"
proof (cases "session_get session data_source_id")
  case None
  with assms show ?thesis by (simp add: get_datasource_overview_def)
next
  case (Some r)
  with assms show ?thesis
    by (auto simp: get_datasource_overview_def Let_def sum_dict_of_group_by_count)
qed

theorem overview_sums_witness:
  "(\<exists>ov. fst (get_datasource_overview example_world example_user 1) = Inr ov
      \<and> (\<Sum>s \<in> dom (vector_index ov). case vector_index ov s of None \<Rightarrow> 0 | Some c \<Rightarrow> c) = 3
      \<and> total' (documents ov) = 3
      \<and> (\<Sum>s \<in> dom (kg_index ov). case kg_index ov s of None \<Rightarrow> 0 | Some c \<Rightarrow> c) = 3
      \<and> total' (chunks ov) = 3)"
proof -
  obtain ov where ov: "fst (get_datasource_overview example_world example_user 1) = Inr ov"
    by (simp add: get_datasource_overview_def example_lookup Let_def)
  have "func_count (where_data_source 1 (Document_table example_world)) = 3"
    "func_count (where_document_has (Document_table example_world) 1
                   (Chunk_table example_world)) = 3"
    by (simp_all add: func_count_def where_data_source_def where_document_has_def
        document_has_def example_world_def)
  with ov have d: "total' (documents ov) = 3" and c: "total' (chunks ov) = 3"
    by (auto simp: get_datasource_overview_def example_lookup Let_def)
  have "DataSource_build_kg_index example_ds1" by (simp add: example_ds1_def)
  with overview_sums [OF ov] example_lookup(1) d c show ?thesis using ov by auto
qed

section \<open>Not found\<close>

text \<open>
  Claim C5.  \<open>get_datasource\<close> and \<open>get_datasource_overview\<close> fail if and only if no
  DataSource row has the id, and then with the 404 \<open>Data source not found\<close>; when the
  row exists (primary keys being unique), \<open>get_datasource\<close> returns that row.
\<close>

theorem not_found_iff_absent:
  "((\<exists>e. fst (get_datasource session user data_source_id) = Inl e)
      \<longleftrightarrow> (\<forall>r \<in> set (DataSource_table session). DataSource_id r \<noteq> Some data_source_id))
   \<and> ((\<exists>e. fst (get_datasource_overview session user data_source_id) = Inl e)
      \<longleftrightarrow> (\<forall>r \<in> set (DataSource_table session). DataSource_id r \<noteq> Some data_source_id))
   \<and> ((\<forall>r \<in> set (DataSource_table session). DataSource_id r \<noteq> Some data_source_id) \<longrightarrow>
        fst (get_datasource session user data_source_id)
          = Inl (HTTPException 404 ''Data source not found'')
        \<and> fst (get_datasource_overview session user data_source_id)
          = Inl (HTTPException 404 ''Data source not found''))
   \<and> (distinct (map DataSource_id (DataSource_table session)) \<longrightarrow>
        (\<forall>r \<in> set (DataSource_table session). DataSource_id r = Some data_source_id \<longrightarrow>
           fst (get_datasource session user data_source_id) = Inr r))"
proof -
  let ?absent = "\<forall>r \<in> set (DataSource_table session). DataSource_id r \<noteq> Some data_source_id"
  have a: "(\<exists>e. fst (get_datasource session user data_source_id) = Inl e) \<longleftrightarrow> ?absent"
    using session_get_None_iff [of session data_source_id]
    by (cases "session_get session data_source_id") (auto simp: get_datasource_def)
  have b: "(\<exists>e. fst (get_datasource_overview session user data_source_id) = Inl e) \<longleftrightarrow> ?absent"
    using session_get_None_iff [of session data_source_id]
    by (cases "session_get session data_source_id")
       (auto simp: get_datasource_overview_def Let_def)
  have c: "?absent \<longrightarrow>
        fst (get_datasource session user data_source_id)
          = Inl (HTTPException 404 ''Data source not found'')
        \<and> fst (get_datasource_overview session user data_source_id)
          = Inl (HTTPException 404 ''Data source not found'')"
    using session_get_None_iff [of session data_source_id]
    by (auto simp: get_datasource_def get_datasource_overview_def HTTP_404_NOT_FOUND_def)
  have d: "distinct (map DataSource_id (DataSource_table session)) \<longrightarrow>
        (\<forall>r \<in> set (DataSource_table session). DataSource_id r = Some data_source_id \<longrightarrow>
           fst (get_datasource session user data_source_id) = Inr r)"
  proof (intro impI ballI)
    fix r
    assume dist: "distinct (map DataSource_id (DataSource_table session))"
      and r: "r \<in> set (DataSource_table session)" "DataSource_id r = Some data_source_id"
    from session_get_exists [of session data_source_id] r
    obtain r' where r': "session_get session data_source_id = Some r'" by blast
    from session_get_SomeD [OF r'] have "r' \<in> set (DataSource_table session)"
      "DataSource_id r' = DataSource_id r" using r by simp_all
    with dist r have "r' = r" by (meson distinct_map inj_onD)
    with r' show "fst (get_datasource session user data_source_id) = Inr r"
      by (simp add: get_datasource_def)
  qed
  from a b c d show ?thesis by blast
qed

theorem not_found_iff_absent_witness:
  "\<not> (\<exists>r \<in> set (DataSource_table example_world). DataSource_id r = Some 1003)
   \<and> fst (get_datasource example_world example_user 1003)
       = Inl (HTTPException 404 ''Data source not found'')
   \<and> fst (get_datasource_overview example_world example_user 1003)
       = Inl (HTTPException 404 ''Data source not found'')
   \<and> distinct (map DataSource_id (DataSource_table example_world))
   \<and> example_ds2 \<in> set (DataSource_table example_world)
   \<and> DataSource_id example_ds2 = Some 2
   \<and> fst (get_datasource example_world example_user 2) = Inr example_ds2
   \<and> \<not> (\<exists>e. fst (get_datasource_overview example_world example_user 2) = Inl e)"
proof -
  have absent: "\<forall>r \<in> set (DataSource_table example_world). DataSource_id r \<noteq> Some 1003"
    by (simp add: example_world_def example_ds1_def example_ds2_def example_ds3_def)
  have dist: "distinct (map DataSource_id (DataSource_table example_world))"
    by (simp add: example_world_def example_ds1_def example_ds2_def example_ds3_def)
  have mem: "example_ds2 \<in> set (DataSource_table example_world)"
    "DataSource_id example_ds2 = Some 2"
    by (simp_all add: example_world_def example_ds2_def)
  from not_found_iff_absent [of example_world example_user 1003] absent
  have "fst (get_datasource example_world example_user 1003)
          = Inl (HTTPException 404 ''Data source not found'')"
    "fst (get_datasource_overview example_world example_user 1003)
          = Inl (HTTPException 404 ''Data source not found'')"
    by blast+
  moreover from not_found_iff_absent [of example_world example_user 2] dist mem
  have "fst (get_datasource example_world example_user 2) = Inr example_ds2"
    "\<not> (\<exists>e. fst (get_datasource_overview example_world example_user 2) = Inl e)"
    by blast+
  ultimately show ?thesis using absent dist mem by blast
qed

section \<open>The read endpoints write nothing\<close>

text \<open>
  Claim C10.  \<open>list_datasources\<close>, \<open>get_datasource\<close> and \<open>get_datasource_overview\<close>
  return the store as they received it, on success and on not-found: the DataSource,
  Document and Chunk tables (and everything else) are unchanged.
\<close>

theorem read_handlers_write_nothing:
  "snd (list_datasources session user params) = session
   \<and> snd (get_datasource session user data_source_id) = session
   \<and> snd (get_datasource_overview session user data_source_id) = session"
  by (simp add: list_datasources_def get_datasource_def get_datasource_overview_def Let_def
      split: option.split)

section \<open>Listing\<close>

lemma concat_slices:
  "concat (map (\<lambda>p. take s (drop (s * p) xs)) [0..<n]) = take (s * n) xs"
proof (induction n)
  case 0
  then show ?case by simp
next
  case (Suc n)
  have "take (s * Suc n) xs = take (s * n + s) xs" by (simp add: add.commute)
  also have "\<dots> = take (s * n) xs @ take s (drop (s * n) xs)" by (rule take_add)
  finally show ?case using Suc by simp
qed

lemma upto_as_upt: "[1..int n] = map (\<lambda>k. int k + 1) [0..<n]"
  by (induction n) (simp_all add: upto_rec2)

lemma ceil_div_covers:
  assumes "0 < s"
  shows "L \<le> s * nat (- ((- int L) div int s))"
proof -
  let ?q = "(- int L) div int s"
  have eq: "int s * ?q + (- int L) mod int s = - int L" by (rule mult_div_mod_eq)
  have pos: "0 \<le> (- int L) mod int s" using assms by simp
  from eq pos have le: "int L \<le> int s * (- ?q)" unfolding mult_minus_right by linarith
  have "?q \<le> 0" using assms by (simp add: div_nonpos_pos_le0)
  then have "int (s * nat (- ?q)) = int s * (- ?q)" by simp
  with le have "int L \<le> int (s * nat (- ?q))" by simp
  then show ?thesis by linarith
qed

lemma mset_take_subset: "mset (take n xs) \<subseteq># mset xs"
proof -
  have "mset xs = mset (take n xs) + mset (drop n xs)"
    by (metis append_take_drop_id mset_append)
  then show ?thesis by simp
qed

lemma mset_drop_subset: "mset (drop n xs) \<subseteq># mset xs"
proof -
  have "mset xs = mset (take n xs) + mset (drop n xs)"
    by (metis append_take_drop_id mset_append)
  then show ?thesis by simp
qed

lemma sorted_order_by_desc:
  "sorted_wrt (\<ge>) (map key (order_by_desc key rows))"
proof -
  have "sorted (map key (sort_key key (rev rows)))" by (rule sorted_sort_key)
  then have "sorted_wrt (\<ge>) (rev (map key (sort_key key (rev rows))))"
    by (simp add: sorted_wrt_rev)
  then show ?thesis by (simp add: order_by_desc_def rev_map)
qed

lemma mset_order_by_desc: "mset (order_by_desc key rows) = mset rows"
  by (simp add: order_by_desc_def)

text \<open>
  Every arrangement of the rows by descending key is the answer to the query for some
  order of delivery, namely its own.
\<close>

lemma order_by_desc_sorted_id:
  assumes "sorted_wrt (\<ge>) (map key rows)"
  shows "order_by_desc key rows = rows"
proof -
  from assms have "sorted (map key (rev rows))"
    by (simp add: rev_map [symmetric] sorted_wrt_rev)
  then have "sort_key key (rev rows) = rev rows" by (rule sort_key_id_if_sorted)
  then show ?thesis by (simp add: order_by_desc_def)
qed

text \<open>The keys of the answer do not depend on the order of delivery; with pairwise
  different keys, neither does the answer.\<close>

lemma keys_order_by_desc:
  "map key (order_by_desc key rows) = rev (sort (map key rows))"
proof -
  let ?ks = "rev (map key (order_by_desc key rows))"
  have "sorted ?ks" using sorted_order_by_desc [of key rows] by (simp add: sorted_wrt_rev)
  moreover have "mset ?ks = mset (map key rows)" by (simp add: mset_order_by_desc)
  ultimately have "sort (map key rows) = ?ks" by (rule properties_for_sort [rotated])
  then show ?thesis by simp
qed

lemma keys_order_by_desc_cong:
  assumes "mset rows' = mset rows"
  shows "map key (order_by_desc key rows') = map key (order_by_desc key rows)"
proof -
  from assms have "mset (map key rows') = mset (map key rows)" by simp
  then have "sort (map key rows') = sort (map key rows)"
    by (intro properties_for_sort) simp_all
  then show ?thesis by (simp add: keys_order_by_desc)
qed

lemma order_by_desc_cong_distinct:
  assumes "mset rows' = mset rows" and "distinct (map key rows)"
  shows "order_by_desc key rows' = order_by_desc key rows"
proof -
  let ?xs = "order_by_desc key rows'" and ?ys = "order_by_desc key rows"
  have keys: "map key ?xs = map key ?ys" by (rule keys_order_by_desc_cong [OF assms(1)])
  have "set ?xs = set rows" "set ?ys = set rows"
    using assms(1) by (auto simp: order_by_desc_def dest: mset_eq_setD)
  moreover have "inj_on key (set rows)" using assms(2) by (simp add: distinct_map)
  ultimately have "inj_on key (set ?xs \<union> set ?ys)" by simp
  with keys show ?thesis by (simp add: inj_on_map_eq_map)
qed

lemma all_pages_items_slices:
  assumes "1 \<le> page_size"
    and "\<forall>q. mset (DataSource_table (sessions q)) = mset (DataSource_table session)"
  shows "all_pages_items sessions user page_size =
           concat (map (\<lambda>k. take (nat page_size)
                               (drop (nat page_size * k)
                                  (order_by_desc DataSource_created_at
                                     (DataSource_table (sessions (int k + 1))))))
                     [0..<nat (- ((- int (length (DataSource_table session)))
                                   div int (nat page_size)))])"
proof -
  let ?s = "nat page_size"
  let ?n = "nat (- ((- int (length (DataSource_table session))) div int ?s))"
  have s: "0 < ?s" "int ?s = page_size" using assms(1) by simp_all
  have "length (DataSource_table (sessions 1)) = length (DataSource_table session)"
    using assms(2) by (auto dest: mset_eq_length)
  then have pages: "Page_pages (fst (list_datasources (sessions 1) user
                  \<lparr>Params_page = 1, Params_size = page_size\<rparr>)) = int ?n"
    using assms(1) s
    by (simp add: list_datasources_def paginate_def Let_def func_count_def order_by_desc_def
        div_nonpos_pos_le0)
  show ?thesis
    unfolding all_pages_items_def pages upto_as_upt
    using assms(1)
    by (simp add: list_datasources_def paginate_def Let_def comp_def nat_mult_distrib)
qed

lemma all_pages_items_same_order:
  assumes "1 \<le> page_size"
    and "\<forall>q. mset (DataSource_table (sessions q)) = mset (DataSource_table session)"
    and "\<forall>q. order_by_desc DataSource_created_at (DataSource_table (sessions q))
               = order_by_desc DataSource_created_at (DataSource_table session)"
  shows "all_pages_items sessions user page_size
           = order_by_desc DataSource_created_at (DataSource_table session)"
proof -
  let ?xs = "order_by_desc DataSource_created_at (DataSource_table session)"
  let ?s = "nat page_size"
  let ?n = "nat (- ((- int (length (DataSource_table session))) div int ?s))"
  have s: "0 < ?s" using assms(1) by simp
  have "all_pages_items sessions user page_size
      = concat (map (\<lambda>k. take ?s (drop (?s * k) ?xs)) [0..<?n])"
    by (simp add: all_pages_items_slices [OF assms(1,2)] assms(3))
  also have "\<dots> = take (?s * ?n) ?xs" by (rule concat_slices)
  also have "\<dots> = ?xs"
    using ceil_div_covers [OF s, of "length (DataSource_table session)"]
    by (simp add: order_by_desc_def)
  finally show ?thesis .
qed

lemma all_pages_items_keys:
  assumes "1 \<le> page_size"
    and "\<forall>q. mset (DataSource_table (sessions q)) = mset (DataSource_table session)"
  shows "map DataSource_created_at (all_pages_items sessions user page_size)
           = map DataSource_created_at
               (order_by_desc DataSource_created_at (DataSource_table session))"
proof -
  let ?ks = "map DataSource_created_at
               (order_by_desc DataSource_created_at (DataSource_table session))"
  let ?s = "nat page_size"
  let ?n = "nat (- ((- int (length (DataSource_table session))) div int ?s))"
  have s: "0 < ?s" using assms(1) by simp
  have keys: "map DataSource_created_at
                (order_by_desc DataSource_created_at (DataSource_table (sessions q))) = ?ks"
    for q using assms(2) by (intro keys_order_by_desc_cong) simp
  have "map DataSource_created_at (all_pages_items sessions user page_size)
      = concat (map (\<lambda>k. take ?s (drop (?s * k) ?ks)) [0..<?n])"
    by (simp add: all_pages_items_slices [OF assms] map_concat comp_def keys
        flip: take_map drop_map)
  also have "\<dots> = take (?s * ?n) ?ks" by (rule concat_slices)
  also have "\<dots> = ?ks"
    using ceil_div_covers [OF s, of "length (DataSource_table session)"]
    by (simp add: order_by_desc_def)
  finally show ?thesis .
qed

text \<open>
  Claim C6, as amended.  Let every page be fetched by a request of its own, each seeing
  the same stored rows in whatever order the database delivers them.  For a page size
  and a page number of at least 1 (what \<^verbatim>\<open>Params\<close> admits), the page that
  \<open>list_datasources\<close> returns is a slice, at its offset, of an arrangement of all rows
  by \<open>created_at\<close> descending; it is ordered by \<open>created_at\<close> non-increasing and drawn
  from the DataSource table.  The pages \<open>1, \<dots>, pages\<close> put one after the other are
  ordered by \<open>created_at\<close> non-increasing and carry the \<open>created_at\<close> values of the
  table, each as often as the table has it.  When the \<open>created_at\<close> values of the table
  are pairwise different, or when every request sees the rows in the same order, the
  pages together hold every row exactly as often as the table does: no duplicates, no
  omissions.
\<close>

theorem list_pages_cover:
  assumes "1 \<le> page_size" and "1 \<le> p"
    and "\<forall>q. mset (DataSource_table (sessions q)) = mset (DataSource_table session)"
  shows "(\<exists>ordered. mset ordered = mset (DataSource_table session)
            \<and> sorted_wrt (\<ge>) (map DataSource_created_at ordered)
            \<and> Page_items (fst (list_datasources (sessions p) user
                                  \<lparr>Params_page = p, Params_size = page_size\<rparr>))
                = take (nat page_size) (drop (nat (page_size * (p - 1))) ordered))
     \<and> sorted_wrt (\<ge>) (map DataSource_created_at
          (Page_items (fst (list_datasources (sessions p) user
                              \<lparr>Params_page = p, Params_size = page_size\<rparr>))))
     \<and> mset (Page_items (fst (list_datasources (sessions p) user
                                 \<lparr>Params_page = p, Params_size = page_size\<rparr>)))
          \<subseteq># mset (DataSource_table session)
     \<and> sorted_wrt (\<ge>) (map DataSource_created_at (all_pages_items sessions user page_size))
     \<and> mset (map DataSource_created_at (all_pages_items sessions user page_size))
          = mset (map DataSource_created_at (DataSource_table session))
     \<and> (distinct (map DataSource_created_at (DataSource_table session)) \<longrightarrow>
          mset (all_pages_items sessions user page_size) = mset (DataSource_table session))
     \<and> ((\<forall>q. DataSource_table (sessions q) = DataSource_table session) \<longrightarrow>
          mset (all_pages_items sessions user page_size) = mset (DataSource_table session))"
proof -
  let ?xs = "order_by_desc DataSource_created_at (DataSource_table (sessions p))"
  let ?page = "Page_items (fst (list_datasources (sessions p) user
                                  \<lparr>Params_page = p, Params_size = page_size\<rparr>))"
  have same: "mset (DataSource_table (sessions q)) = mset (DataSource_table session)" for q
    using assms(3) by simp
  have page: "?page = take (nat page_size) (drop (nat (page_size * (p - 1))) ?xs)"
    by (simp add: list_datasources_def paginate_def Let_def)
  have sorted_xs: "sorted_wrt (\<ge>) (map DataSource_created_at ?xs)"
    by (rule sorted_order_by_desc)
  have mset_xs: "mset ?xs = mset (DataSource_table session)"
    by (simp add: mset_order_by_desc same)
  from mset_xs sorted_xs page have slice:
    "\<exists>ordered. mset ordered = mset (DataSource_table session)
        \<and> sorted_wrt (\<ge>) (map DataSource_created_at ordered)
        \<and> ?page = take (nat page_size) (drop (nat (page_size * (p - 1))) ordered)"
    by blast
  from sorted_xs have sorted_page: "sorted_wrt (\<ge>) (map DataSource_created_at ?page)"
    unfolding page by (simp add: sorted_wrt_take sorted_wrt_drop flip: take_map drop_map)
  have "mset ?page \<subseteq># mset (drop (nat (page_size * (p - 1))) ?xs)"
    unfolding page by (rule mset_take_subset)
  also have "\<dots> \<subseteq># mset ?xs" by (rule mset_drop_subset)
  finally have sub: "mset ?page \<subseteq># mset (DataSource_table session)"
    by (simp add: mset_xs)
  note keys = all_pages_items_keys [OF assms(1,3), of user]
  have sorted_all:
    "sorted_wrt (\<ge>) (map DataSource_created_at (all_pages_items sessions user page_size))"
    unfolding keys by (rule sorted_order_by_desc)
  have "mset (map DataSource_created_at
                (order_by_desc DataSource_created_at (DataSource_table session)))
          = mset (map DataSource_created_at (DataSource_table session))"
    by (simp add: mset_order_by_desc)
  then have mset_keys:
    "mset (map DataSource_created_at (all_pages_items sessions user page_size))
       = mset (map DataSource_created_at (DataSource_table session))"
    unfolding keys .
  have no_ties: "mset (all_pages_items sessions user page_size) = mset (DataSource_table session)"
    if "distinct (map DataSource_created_at (DataSource_table session))"
  proof -
    have "\<forall>q. order_by_desc DataSource_created_at (DataSource_table (sessions q))
               = order_by_desc DataSource_created_at (DataSource_table session)"
      using that same by (intro allI order_by_desc_cong_distinct)
    from all_pages_items_same_order [OF assms(1,3) this] show ?thesis
      by (simp add: mset_order_by_desc)
  qed
  have same_order: "mset (all_pages_items sessions user page_size) = mset (DataSource_table session)"
    if "\<forall>q. DataSource_table (sessions q) = DataSource_table session"
  proof -
    from that have "\<forall>q. order_by_desc DataSource_created_at (DataSource_table (sessions q))
               = order_by_desc DataSource_created_at (DataSource_table session)"
      by simp
    from all_pages_items_same_order [OF assms(1,3) this] show ?thesis
      by (simp add: mset_order_by_desc)
  qed
  from slice sorted_page sub sorted_all mset_keys no_ties same_order show ?thesis by blast
qed

lemma example_orders:
  "order_by_desc DataSource_created_at (DataSource_table example_world)
     = [example_ds2, example_ds3, example_ds1]"
  "order_by_desc DataSource_created_at (DataSource_table example_world_redelivered)
     = [example_ds3, example_ds2, example_ds1]"
  by (simp_all add: order_by_desc_def example_world_redelivered_def example_world_def
      example_ds1_def example_ds2_def example_ds3_def)

lemma example_sessions_same_rows:
  "mset (DataSource_table (example_sessions q)) = mset (DataSource_table example_world)"
  by (simp add: example_sessions_def example_world_redelivered_def example_world_def)

lemma example_pages:
  "Page_items (fst (list_datasources (example_sessions 1) example_user
                      \<lparr>Params_page = 1, Params_size = 1\<rparr>)) = [example_ds2]"
  "Page_items (fst (list_datasources (example_sessions 2) example_user
                      \<lparr>Params_page = 2, Params_size = 1\<rparr>)) = [example_ds2]"
  "Page_items (fst (list_datasources (example_sessions 3) example_user
                      \<lparr>Params_page = 3, Params_size = 1\<rparr>)) = [example_ds1]"
  "Page_pages (fst (list_datasources (example_sessions 1) example_user
                      \<lparr>Params_page = 1, Params_size = 1\<rparr>)) = 3"
  by (simp_all add: list_datasources_def paginate_def Let_def func_count_def
      example_sessions_def example_orders)

lemma example_all_pages:
  "all_pages_items example_sessions example_user 1 = [example_ds2, example_ds2, example_ds1]"
  unfolding all_pages_items_def example_pages(4)
  by (simp add: upto_rec1 example_pages)

lemma example_two_all_pages:
  "all_pages_items example_two_sessions example_user 1 = [example_ds2, example_ds1]"
proof -
  have "Page_pages (fst (list_datasources (example_two_sessions 1) example_user
                      \<lparr>Params_page = 1, Params_size = 1\<rparr>)) = 2"
    by (simp add: list_datasources_def paginate_def Let_def func_count_def
        order_by_desc_def example_two_sessions_def example_two_def)
  then show ?thesis
    unfolding all_pages_items_def
    by (simp add: upto_rec1 list_datasources_def paginate_def Let_def order_by_desc_def
        example_two_sessions_def example_two_def example_ds1_def example_ds2_def)
qed

theorem list_pages_cover_witness:
  "(1::int) \<le> 1 \<and> (1::int) \<le> 2
   \<and> (\<forall>q. mset (DataSource_table (example_sessions q)) = mset (DataSource_table example_world))
   \<and> Page_items (fst (list_datasources (example_sessions 2) example_user
                         \<lparr>Params_page = 2, Params_size = 1\<rparr>))
       = take 1 (drop 1 [example_ds3, example_ds2, example_ds1])
   \<and> map DataSource_created_at (all_pages_items example_sessions example_user 1)
       = [Some 2000, Some 2000, Some 1000]
   \<and> sorted_wrt (\<ge>) (map DataSource_created_at
                          (all_pages_items example_sessions example_user 1))
   \<and> mset (map DataSource_created_at (all_pages_items example_sessions example_user 1))
       = mset (map DataSource_created_at (DataSource_table example_world))
   \<and> (\<forall>q. mset (DataSource_table (example_two_sessions q))
             = mset (DataSource_table example_two))
   \<and> distinct (map DataSource_created_at (DataSource_table example_two))
   \<and> all_pages_items example_two_sessions example_user 1 = [example_ds2, example_ds1]
   \<and> mset (all_pages_items example_two_sessions example_user 1)
       = mset (DataSource_table example_two)
   \<and> mset (all_pages_items (\<lambda>q. example_world) example_user 2)
       = mset (DataSource_table example_world)"
proof -
  have one: "(1::int) \<le> 1" and two: "(1::int) \<le> 2" by simp_all
  have rows: "\<forall>q. mset (DataSource_table (example_sessions q))
                    = mset (DataSource_table example_world)"
    by (simp add: example_sessions_same_rows)
  have rows2: "\<forall>q. mset (DataSource_table (example_two_sessions q))
                     = mset (DataSource_table example_two)"
    by (simp add: example_two_sessions_def example_two_def)
  have rows3: "\<forall>q. mset (DataSource_table ((\<lambda>q. example_world) q))
                     = mset (DataSource_table example_world)"
    by simp
  have dist: "distinct (map DataSource_created_at (DataSource_table example_two))"
    by (simp add: example_two_def example_ds1_def example_ds2_def)
  note ties = list_pages_cover [OF one two rows, of example_user]
  note no_ties = list_pages_cover [OF one one rows2, of example_user]
  note same = list_pages_cover [OF two one rows3, of example_user]
  have keys: "map DataSource_created_at (all_pages_items example_sessions example_user 1)
                = [Some 2000, Some 2000, Some 1000]"
    by (simp add: example_all_pages example_ds1_def example_ds2_def)
  from ties no_ties same show ?thesis
    using rows rows2 dist keys by (simp add: example_pages example_two_all_pages)
qed

text \<open>
  Claim C6 as it was stated fails where rows share a \<open>created_at\<close>.  Data sources 2 and
  3 do; the request for page 2 of size 1 gets them delivered the other way round than
  the requests for pages 1 and 3.  Each request sees the same three rows, yet the pages
  are \<open>[2]\<close>, \<open>[2]\<close>, \<open>[1]\<close>: data source 2 twice, data source 3 never.
\<close>

theorem list_pages_union_counterexample:
  "mset (DataSource_table (example_sessions 1)) = mset (DataSource_table example_world)
   \<and> mset (DataSource_table (example_sessions 2)) = mset (DataSource_table example_world)
   \<and> mset (DataSource_table (example_sessions 3)) = mset (DataSource_table example_world)
   \<and> Page_items (fst (list_datasources (example_sessions 1) example_user
                         \<lparr>Params_page = 1, Params_size = 1\<rparr>)) = [example_ds2]
   \<and> Page_items (fst (list_datasources (example_sessions 2) example_user
                         \<lparr>Params_page = 2, Params_size = 1\<rparr>)) = [example_ds2]
   \<and> Page_items (fst (list_datasources (example_sessions 3) example_user
                         \<lparr>Params_page = 3, Params_size = 1\<rparr>)) = [example_ds1]
   \<and> all_pages_items example_sessions example_user 1
       = [example_ds2, example_ds2, example_ds1]
   \<and> example_ds3 \<in> set (DataSource_table example_world)
   \<and> example_ds3 \<notin> set (all_pages_items example_sessions example_user 1)
   \<and> \<not> distinct (all_pages_items example_sessions example_user 1)
   \<and> mset (all_pages_items example_sessions example_user 1)
       \<noteq> mset (DataSource_table example_world)"
proof -
  have mem: "example_ds3 \<in> set (DataSource_table example_world)"
    by (simp add: example_world_def)
  have omitted: "example_ds3 \<notin> set (all_pages_items example_sessions example_user 1)"
    by (simp add: example_all_pages example_ds1_def example_ds2_def example_ds3_def)
  have twice: "\<not> distinct (all_pages_items example_sessions example_user 1)"
    by (simp add: example_all_pages)
  have "mset (all_pages_items example_sessions example_user 1)
          \<noteq> mset (DataSource_table example_world)"
    using mem omitted by (auto dest: mset_eq_setD)
  with mem omitted twice show ?thesis
    by (simp add: example_sessions_same_rows example_pages example_all_pages)
qed

section \<open>Creating a data source\<close>

lemma length_flush: "length (flush n now xs) = length xs"
  by (induction xs arbitrary: n) (simp_all split: option.split)

lemma flush_append:
  "flush n now (xs @ ys) =
     flush n now xs
       @ flush (n + int (length (filter (\<lambda>x. DataSource_id x = None) xs))) now ys"
  by (induction xs arbitrary: n) (simp_all add: add.assoc split: option.split)

lemma inserted_append:
  "length xs = length xs' \<Longrightarrow>
     inserted (xs @ ys) (xs' @ ys') = inserted xs xs' @ inserted ys ys'"
  by (simp add: inserted_def)

lemma inserted_single:
  "inserted [x] [y] = (if DataSource_id x = None then [y] else [])"
  by (simp add: inserted_def)

lemma inserted_no_pending:
  "\<forall>x \<in> set xs. DataSource_id x \<noteq> None \<Longrightarrow> inserted xs ys = []"
  by (auto simp: inserted_def filter_empty_conv dest: set_zip_leftD)

lemma find_SomeD: "find P xs = Some x \<Longrightarrow> P x \<and> x \<in> set xs"
  by (induction xs) (auto split: if_splits)

lemma find_append_new:
  assumes "DataSource_id r = Some k"
  shows "\<exists>row. find (\<lambda>r. DataSource_id r = Some k) (rows @ news @ [r]) = Some row
           \<and> DataSource_id row = Some k \<and> row \<in> set (rows @ news @ [r])"
proof (cases "find (\<lambda>r. DataSource_id r = Some k) (rows @ news @ [r])")
  case None
  then show ?thesis using assms by (auto simp: find_None_iff)
next
  case (Some row)
  from find_SomeD [OF this] Some show ?thesis by blast
qed

lemma find_fresh:
  assumes "\<forall>x \<in> set rows. \<not> P x" and "P r"
  shows "find P (rows @ [r]) = Some r"
  using assms by (induction rows) auto

text \<open>
  What \<open>create_datasource\<close> does in any state: \<open>others\<close> are the rows of objects that
  were pending in the session already, \<open>new\<close> is the row of the handler's object.
\<close>

lemma create_datasource_cases:
  fixes session :: "('t, 'c, 'u, 'ds, 'cs) world"
    and user :: "'u User" and request :: "('t, 'c) DataSourceCreate"
  defines "m \<equiv> next_id session
                 + int (length (filter (\<lambda>x. DataSource_id x = None) (instances session)))"
  defines "others \<equiv> inserted (instances session)
                        (flush (next_id session) (db_now session) (instances session))"
  defines "new \<equiv> \<lparr>DataSource_id = Some m,
                   DataSource_name = DataSourceCreate_name request,
                   DataSource_description = DataSourceCreate_description request,
                   DataSource_data_source_type = DataSourceCreate_data_source_type request,
                   DataSource_config = DataSourceCreate_config request,
                   DataSource_build_kg_index = DataSourceCreate_build_kg_index request,
                   DataSource_user_id = User_id user,
                   DataSource_created_at = Some (db_now session)\<rparr>"
  shows "\<exists>row session'.
      create_datasource session user request
        = (if broker_up session then Inr row else Inl DispatchFailure, session')
      \<and> find (\<lambda>r. DataSource_id r = Some m) (DataSource_table session @ others @ [new])
          = Some row
      \<and> DataSource_table session' = DataSource_table session @ others @ [new]
      \<and> Document_table session' = Document_table session
      \<and> Chunk_table session' = Chunk_table session
      \<and> task_queue session'
          = (if broker_up session then task_queue session @ [Some m] else task_queue session)
      \<and> history session'
          = history session
              @ Committed (List.map_filter DataSource_id others @ [m])
              # (if broker_up session then [Dispatched (Some m)] else [])"
proof -
  let ?ds = "\<lparr>DataSource_id = None,
              DataSource_name = DataSourceCreate_name request,
              DataSource_description = DataSourceCreate_description request,
              DataSource_data_source_type = DataSourceCreate_data_source_type request,
              DataSource_config = DataSourceCreate_config request,
              DataSource_build_kg_index = DataSourceCreate_build_kg_index request,
              DataSource_user_id = User_id user,
              DataSource_created_at = None\<rparr>"
  let ?ref = "length (instances session)"
  let ?flushed = "flush (next_id session) (db_now session) (instances session)"
  define committed where "committed = session_commit (snd (session_add session ?ds))"
  have id_new: "DataSource_id new = Some m" by (simp add: new_def)
  have flushed: "flush (next_id session) (db_now session) (instances session @ [?ds])
                   = ?flushed @ [new]"
    by (simp add: flush_append m_def new_def)
  have rows: "inserted (instances session @ [?ds]) (?flushed @ [new]) = others @ [new]"
    by (simp add: inserted_append length_flush inserted_single others_def)
  have ids: "List.map_filter DataSource_id (others @ [new])
               = List.map_filter DataSource_id others @ [m]"
    by (simp add: List.map_filter_def id_new)
  have committed: "committed =
      session\<lparr>DataSource_table := DataSource_table session @ others @ [new],
               instances := ?flushed @ [new],
               next_id := next_id session + int (length (others @ [new])),
               history := history session
                            @ [Committed (List.map_filter DataSource_id others @ [m])]\<rparr>"
    unfolding committed_def session_add_def session_commit_def
    by (simp add: Let_def flushed rows ids)
  from find_append_new [OF id_new, of "DataSource_table session" others]
  obtain row where row:
    "find (\<lambda>r. DataSource_id r = Some m) (DataSource_table session @ others @ [new]) = Some row"
    "DataSource_id row = Some m"
    by blast
  have refresh: "session_refresh committed ?ref
                   = Inr (row, committed\<lparr>instances := (?flushed @ [new])[?ref := row]\<rparr>)"
    unfolding session_refresh_def session_get_def
    by (simp add: committed length_flush nth_append id_new row)
  have create: "create_datasource session user request =
      (case import_documents_from_datasource_delay
              (committed\<lparr>instances := (?flushed @ [new])[?ref := row]\<rparr>) (Some m) of
         Inl e \<Rightarrow> (Inl e, committed\<lparr>instances := (?flushed @ [new])[?ref := row]\<rparr>)
       | Inr dispatched \<Rightarrow> (Inr row, dispatched))"
    unfolding create_datasource_def Let_def
    by (simp add: session_add_def committed_def [symmetric, unfolded session_add_def, simplified]
        refresh [unfolded session_add_def, simplified] row)
  show ?thesis
    unfolding create
    by (simp add: import_documents_from_datasource_delay_def committed row)
qed

lemma example_create:
  "create_datasource example_world example_user example_request =
     (Inr example_ds4,
      example_world\<lparr>DataSource_table := [example_ds1, example_ds2, example_ds3, example_ds4],
                     instances := [example_ds4],
                     next_id := 5,
                     task_queue := [Some 1, Some 2, Some 3, Some 4],
                     history := [Committed [4], Dispatched (Some 4)]\<rparr>)"
  by (simp add: create_datasource_def session_add_def session_commit_def session_refresh_def
      session_get_def import_documents_from_datasource_delay_def inserted_def
      List.map_filter_def Let_def example_world_def example_user_def example_request_def
      example_ds1_def example_ds2_def example_ds3_def example_ds4_def)

lemma example_create_broker_down:
  "create_datasource (example_world\<lparr>broker_up := False\<rparr>) example_user example_request =
     (Inl DispatchFailure,
      example_world\<lparr>DataSource_table := [example_ds1, example_ds2, example_ds3, example_ds4],
                     instances := [example_ds4],
                     next_id := 5,
                     broker_up := False,
                     history := [Committed [4]]\<rparr>)"
  by (simp add: create_datasource_def session_add_def session_commit_def session_refresh_def
      session_get_def import_documents_from_datasource_delay_def inserted_def
      List.map_filter_def Let_def example_world_def example_user_def example_request_def
      example_ds1_def example_ds2_def example_ds3_def example_ds4_def)

text \<open>
  Claim C3.  When the session has no pending object, the next auto-increment value is
  no stored row's primary key and the broker accepts the job, \<open>create_datasource\<close>
  appends exactly one row to the DataSource table, with the caller's id as \<open>user_id\<close>,
  the request's fields, the generated id and \<open>created_at\<close>; it appends exactly one
  job, carrying that id, to the task queue; and it returns that row.
\<close>

theorem create_persists_dispatches_returns:
  assumes "\<forall>x \<in> set (instances session). DataSource_id x \<noteq> None"
    and "\<forall>r \<in> set (DataSource_table session). DataSource_id r \<noteq> Some (next_id session)"
    and "broker_up session"
  shows "\<exists>row session'.
      create_datasource session user request = (Inr row, session')
      \<and> row = \<lparr>DataSource_id = Some (next_id session),
                DataSource_name = DataSourceCreate_name request,
                DataSource_description = DataSourceCreate_description request,
                DataSource_data_source_type = DataSourceCreate_data_source_type request,
                DataSource_config = DataSourceCreate_config request,
                DataSource_build_kg_index = DataSourceCreate_build_kg_index request,
                DataSource_user_id = User_id user,
                DataSource_created_at = Some (db_now session)\<rparr>
      \<and> DataSource_table session' = DataSource_table session @ [row]
      \<and> Document_table session' = Document_table session
      \<and> Chunk_table session' = Chunk_table session
      \<and> task_queue session' = task_queue session @ [DataSource_id row]"
proof -
  have none: "filter (\<lambda>x. DataSource_id x = None) (instances session) = []"
    using assms(1) by (simp add: filter_empty_conv)
  have others: "inserted (instances session)
                  (flush (next_id session) (db_now session) (instances session)) = []"
    using assms(1) by (rule inserted_no_pending)
  let ?new = "\<lparr>DataSource_id = Some (next_id session),
                DataSource_name = DataSourceCreate_name request,
                DataSource_description = DataSourceCreate_description request,
                DataSource_data_source_type = DataSourceCreate_data_source_type request,
                DataSource_config = DataSourceCreate_config request,
                DataSource_build_kg_index = DataSourceCreate_build_kg_index request,
                DataSource_user_id = User_id user,
                DataSource_created_at = Some (db_now session)\<rparr>"
  have "find (\<lambda>r. DataSource_id r = Some (next_id session)) (DataSource_table session @ [?new])
          = Some ?new"
    using assms(2) by (intro find_fresh) simp_all
  with create_datasource_cases [of session user request] assms(3) show ?thesis
    by (auto simp: none others)
qed

theorem create_persists_dispatches_returns_witness:
  "\<not> (\<exists>x \<in> set (instances example_world). DataSource_id x = None)
   \<and> \<not> (\<exists>r \<in> set (DataSource_table example_world).
            DataSource_id r = Some (next_id example_world))
   \<and> broker_up example_world
   \<and> (\<exists>session'.
        create_datasource example_world example_user example_request
          = (Inr example_ds4, session')
        \<and> DataSource_table session' = DataSource_table example_world @ [example_ds4]
        \<and> DataSource_user_id example_ds4 = User_id example_user
        \<and> task_queue session' = task_queue example_world @ [Some 4])"
proof -
  have h1: "\<forall>x \<in> set (instances example_world). DataSource_id x \<noteq> None"
    by (simp add: example_world_def)
  have h2: "\<forall>r \<in> set (DataSource_table example_world).
              DataSource_id r \<noteq> Some (next_id example_world)"
    by (simp add: example_world_def example_ds1_def example_ds2_def example_ds3_def)
  have h3: "broker_up example_world" by (simp add: example_world_def)
  have u: "DataSource_user_id example_ds4 = User_id example_user"
    by (simp add: example_ds4_def example_user_def)
  from create_persists_dispatches_returns [OF h1 h2 h3, of example_user example_request]
  obtain row session' where
    "create_datasource example_world example_user example_request = (Inr row, session')"
    "DataSource_table session' = DataSource_table example_world @ [row]"
    "task_queue session' = task_queue example_world @ [DataSource_id row]"
    by blast
  with example_create have
    "create_datasource example_world example_user example_request = (Inr example_ds4, session')
     \<and> DataSource_table session' = DataSource_table example_world @ [example_ds4]
     \<and> task_queue session' = task_queue example_world @ [Some 4]"
    by (simp add: example_ds4_def)
  with h1 h2 h3 u show ?thesis by blast
qed

text \<open>
  Claim C4.  In every execution of \<open>create_datasource\<close>, the jobs it adds to the
  task queue are those of the dispatch events it adds to the history; each of these
  events comes after the commit that inserted the row the job is about, and that row is
  in the DataSource table.
\<close>

theorem create_commit_before_dispatch:
  "\<exists>new_events.
      history (snd (create_datasource session user request)) = history session @ new_events
      \<and> task_queue (snd (create_datasource session user request))
          = task_queue session @ jobs_of new_events
      \<and> commit_precedes_dispatch [] new_events
      \<and> (\<forall>arg. Dispatched arg \<in> set new_events \<longrightarrow>
            (\<exists>row \<in> set (DataSource_table (snd (create_datasource session user request))).
                DataSource_id row = arg \<and> arg \<noteq> None))"
proof -
  from create_datasource_cases [of session user request]
  obtain row session' m others new where
    c: "create_datasource session user request
          = (if broker_up session then Inr row else Inl DispatchFailure, session')"
    and f: "find (\<lambda>r. DataSource_id r = Some m) (DataSource_table session @ others @ [new])
              = Some row"
    and t: "DataSource_table session' = DataSource_table session @ others @ [new]"
    and q: "task_queue session'
          = (if broker_up session then task_queue session @ [Some m] else task_queue session)"
    and h: "history session'
          = history session
              @ Committed (List.map_filter DataSource_id others @ [m])
              # (if broker_up session then [Dispatched (Some m)] else [])"
    by blast
  from find_SomeD [OF f] t have "row \<in> set (DataSource_table session')"
    "DataSource_id row = Some m" by simp_all
  then show ?thesis
    by (intro exI [of _ "Committed (List.map_filter DataSource_id others @ [m])
              # (if broker_up session then [Dispatched (Some m)] else [])"])
       (auto simp: c h q)
qed

theorem create_commit_before_dispatch_witness:
  "history (snd (create_datasource example_world example_user example_request))
     = history example_world @ [Committed [4], Dispatched (Some 4)]
   \<and> task_queue (snd (create_datasource example_world example_user example_request))
       = task_queue example_world @ jobs_of [Committed [4], Dispatched (Some 4)]
   \<and> commit_precedes_dispatch [] [Committed [4], Dispatched (Some 4)]
   \<and> (\<exists>row \<in> set (DataSource_table
                      (snd (create_datasource example_world example_user example_request))).
         DataSource_id row = Some 4)"
proof -
  have hist: "history (snd (create_datasource example_world example_user example_request))
                = history example_world @ [Committed [4], Dispatched (Some 4)]"
    by (simp add: example_create) (simp add: example_world_def)
  from create_commit_before_dispatch [of example_world example_user example_request]
  obtain new_events where
    "history (snd (create_datasource example_world example_user example_request))
       = history example_world @ new_events"
    "task_queue (snd (create_datasource example_world example_user example_request))
       = task_queue example_world @ jobs_of new_events"
    "commit_precedes_dispatch [] new_events"
    "\<forall>arg. Dispatched arg \<in> set new_events \<longrightarrow>
       (\<exists>row \<in> set (DataSource_table
                        (snd (create_datasource example_world example_user example_request))).
           DataSource_id row = arg \<and> arg \<noteq> None)"
    by blast
  with hist show ?thesis by auto
qed

text \<open>
  Claim C8.  When the broker does not accept the job, \<open>create_datasource\<close> fails
  with the dispatcher's error, no job is enqueued, and the new row stays in the
  DataSource table: nothing undoes the commit.
\<close>

theorem create_dispatch_failure:
  assumes "\<forall>x \<in> set (instances session). DataSource_id x \<noteq> None"
    and "\<not> broker_up session"
  shows "\<exists>session'.
      create_datasource session user request = (Inl DispatchFailure, session')
      \<and> DataSource_table session'
          = DataSource_table session
              @ [\<lparr>DataSource_id = Some (next_id session),
                  DataSource_name = DataSourceCreate_name request,
                  DataSource_description = DataSourceCreate_description request,
                  DataSource_data_source_type = DataSourceCreate_data_source_type request,
                  DataSource_config = DataSourceCreate_config request,
                  DataSource_build_kg_index = DataSourceCreate_build_kg_index request,
                  DataSource_user_id = User_id user,
                  DataSource_created_at = Some (db_now session)\<rparr>]
      \<and> task_queue session' = task_queue session"
proof -
  have none: "filter (\<lambda>x. DataSource_id x = None) (instances session) = []"
    using assms(1) by (simp add: filter_empty_conv)
  have others: "inserted (instances session)
                  (flush (next_id session) (db_now session) (instances session)) = []"
    using assms(1) by (rule inserted_no_pending)
  from create_datasource_cases [of session user request] assms(2) show ?thesis
    by (auto simp: none others)
qed

theorem create_dispatch_failure_witness:
  "\<not> (\<exists>x \<in> set (instances (example_world\<lparr>broker_up := False\<rparr>)). DataSource_id x = None)
   \<and> \<not> broker_up (example_world\<lparr>broker_up := False\<rparr>)
   \<and> (\<exists>session'.
        create_datasource (example_world\<lparr>broker_up := False\<rparr>) example_user example_request
          = (Inl DispatchFailure, session')
        \<and> DataSource_table session' = [example_ds1, example_ds2, example_ds3, example_ds4]
        \<and> task_queue session' = [Some 1, Some 2, Some 3])"
proof -
  have h1: "\<forall>x \<in> set (instances (example_world\<lparr>broker_up := False\<rparr>)). DataSource_id x \<noteq> None"
    by (simp add: example_world_def)
  have h2: "\<not> broker_up (example_world\<lparr>broker_up := False\<rparr>)" by simp
  from create_dispatch_failure [OF h1 h2, of example_user example_request]
  obtain session' where
    "create_datasource (example_world\<lparr>broker_up := False\<rparr>) example_user example_request
       = (Inl DispatchFailure, session')"
    by blast
  with example_create_broker_down have
    "create_datasource (example_world\<lparr>broker_up := False\<rparr>) example_user example_request
       = (Inl DispatchFailure, session')
     \<and> DataSource_table session' = [example_ds1, example_ds2, example_ds3, example_ds4]
     \<and> task_queue session' = [Some 1, Some 2, Some 3]"
    by (auto simp: example_world_def)
  with h1 h2 show ?thesis by blast
qed

end
